theory Spec2Isabelle
  imports Complex_Main
begin

section \<open>Data model\<close>

text \<open>
  The agent of \<^verbatim>\<open>rl_exercises/week_4/dqn.py\<close>. Python floats and float32 tensors are
  read as real numbers: rounding, overflow and NaN are outside this model. Python ints
  are \<^typ>\<open>int\<close>; counts that the code only ever uses as sizes are \<^typ>\<open>nat\<close>.
  Every exception is a value of \<open>error\<close>; an exception aborts the call, so a failed call
  returns only the error.
\<close>

datatype error =
    InsufficientDataError
  | ShapeMismatchError
  | PersistenceError
  | ValueError
  | ZeroDivisionError
  | IndexError

type_synonym observation = "real list"

type_synonym info = "(string \<times> string) list"

text \<open>A transition is the 6-tuple \<^verbatim>\<open>(state, action, reward, next_state, done, info)\<close>.\<close>

record transition =
  t_state :: observation
  t_action :: int
  t_reward :: real
  t_next_state :: observation
  t_done :: bool
  t_info :: info

text \<open>
  Modelled from the spec: the class \<^verbatim>\<open>ReplayBuffer\<close> (\<^verbatim>\<open>rl_exercises.week_4.buffers\<close>) is
  missing. A fixed-capacity, ordered collection of transitions, oldest first.
\<close>

record replay_buffer =
  capacity :: nat
  storage :: "transition list"

text \<open>
  The collaborators the agent is wired to: the network's forward pass on one state, one
  Adam step on the mean-squared-error loss (from the online parameters, the optimizer
  state, the batch of states, the actions taken and the regression targets), the shapes
  of a parameter set, the environment and the random number generators. The external
  world (environment and generators) is the state \<open>'w\<close>, threaded through every call.
\<close>

record ('p, 'o, 'w) collaborators =
  forward :: "'p \<Rightarrow> observation \<Rightarrow> real list"
  adam_step :: "'p \<Rightarrow> 'o \<Rightarrow> observation list \<Rightarrow> int list \<Rightarrow> real list \<Rightarrow> 'p \<times> 'o"
  shape_of :: "'p \<Rightarrow> nat list"
  env_reset :: "'w \<Rightarrow> observation \<times> 'w"
  env_step :: "int \<Rightarrow> 'w \<Rightarrow> (observation \<times> real \<times> bool \<times> bool) \<times> 'w"
  action_space_sample :: "'w \<Rightarrow> int \<times> 'w"
  random_rand :: "'w \<Rightarrow> real \<times> 'w"
  random_index :: "nat \<Rightarrow> 'w \<Rightarrow> nat \<times> 'w"

record ('p, 'o) agent =
  obs_dim :: nat
  q :: 'p
  target_q :: 'p
  optimizer :: 'o
  buffer :: replay_buffer
  batch_size :: nat
  gamma :: real
  epsilon_start :: real
  epsilon_final :: real
  epsilon_decay :: int
  target_update_freq :: int
  total_steps :: int
  frame_history :: "int list"
  mean_reward_history :: "real list"

text \<open>
  \<^verbatim>\<open>DQNAgent.__init__\<close>: the target network starts as a copy of the online network, the
  buffer is empty, \<^verbatim>\<open>total_steps\<close> is 0 and both histories are empty. \<open>p0\<close> is the
  initial parameter set of the network, \<open>o0\<close> the initial state of Adam.
\<close>

definition init_agent ::
  "nat \<Rightarrow> 'p \<Rightarrow> 'o \<Rightarrow> nat \<Rightarrow> nat \<Rightarrow> real \<Rightarrow> real \<Rightarrow> real \<Rightarrow> int \<Rightarrow> int \<Rightarrow> ('p, 'o) agent" where
  "init_agent od p0 o0 buffer_capacity bs gam eps_start eps_final eps_decay tuf =
     \<lparr>obs_dim = od, q = p0, target_q = p0, optimizer = o0,
      buffer = \<lparr>capacity = buffer_capacity, storage = []\<rparr>,
      batch_size = bs, gamma = gam,
      epsilon_start = eps_start, epsilon_final = eps_final, epsilon_decay = eps_decay,
      target_update_freq = tuf, total_steps = 0,
      frame_history = [], mean_reward_history = []\<rparr>"

section \<open>Exploration schedule\<close>

text \<open>
  \<^verbatim>\<open>epsilon_final + (epsilon_start - epsilon_final) * np.exp(-total_steps / epsilon_decay)\<close>:
  the unary minus binds first, the division is Python's true division and raises on a
  zero divisor.
\<close>

definition epsilon :: "('p, 'o) agent \<Rightarrow> error + real" where
  "epsilon ag =
     (if epsilon_decay ag = 0 then Inl ZeroDivisionError
      else Inr (epsilon_final ag + (epsilon_start ag - epsilon_final ag) *
                  exp (real_of_int (- total_steps ag) / real_of_int (epsilon_decay ag))))"

section \<open>Action selection\<close>

text \<open>
  Modelled from the spec: \<^verbatim>\<open>QNetwork\<close> (\<^verbatim>\<open>rl_exercises.week_4.networks\<close>) is not part of
  the sources at hand. The approximator is built from \<^verbatim>\<open>(input_dim, num_actions)\<close>, maps a
  state to its per-action value estimates, and a state whose dimensionality disagrees
  with the expected input size is a \<open>ShapeMismatchError\<close>.
\<close>

definition q_values :: "('p, 'o, 'w) collaborators \<Rightarrow> ('p, 'o) agent \<Rightarrow> 'p \<Rightarrow> observation \<Rightarrow> error + real list" where
  "q_values L ag params x =
     (if length x \<noteq> obs_dim ag then Inl ShapeMismatchError else Inr (forward L params x))"

text \<open>
  \<^verbatim>\<open>argmax\<close> of the tensor library: the index of the first maximal entry; it raises on an
  empty dimension.
\<close>

definition argmax :: "real list \<Rightarrow> error + nat" where
  "argmax xs =
     (if xs = [] then Inl IndexError
      else Inr (length (takeWhile (\<lambda>x. x \<noteq> Max (set xs)) xs)))"

text \<open>The greedy branch, written twice in \<^verbatim>\<open>predict_action\<close>: \<^verbatim>\<open>int(self.q(state).argmax())\<close>.\<close>

definition greedy_action :: "('p, 'o, 'w) collaborators \<Rightarrow> ('p, 'o) agent \<Rightarrow> observation \<Rightarrow> error + int" where
  "greedy_action L ag state =
     (case q_values L ag (q ag) state of
        Inl e \<Rightarrow> Inl e
      | Inr qvals \<Rightarrow> (case argmax qvals of Inl e \<Rightarrow> Inl e | Inr i \<Rightarrow> Inr (int i)))"

text \<open>
  \<^verbatim>\<open>predict_action\<close> returns the action together with the agent and the world as the call
  leaves them. In exploration mode \<^verbatim>\<open>np.random.rand()\<close> is drawn before \<^verbatim>\<open>self.epsilon()\<close>
  is evaluated.
\<close>

definition predict_action ::
  "('p, 'o, 'w) collaborators \<Rightarrow> ('p, 'o) agent \<Rightarrow> observation \<Rightarrow> bool \<Rightarrow> 'w
     \<Rightarrow> error + (int \<times> ('p, 'o) agent \<times> 'w)" where
  "predict_action L ag state evaluate w =
     (if evaluate then
        (case greedy_action L ag state of
           Inl e \<Rightarrow> Inl e
         | Inr action \<Rightarrow> Inr (action, ag, w))
      else
        (case random_rand L w of (u, w1) \<Rightarrow>
           (case epsilon ag of
              Inl e \<Rightarrow> Inl e
            | Inr eps \<Rightarrow>
                if u < eps then
                  (case action_space_sample L w1 of (action, w2) \<Rightarrow> Inr (action, ag, w2))
                else
                  (case greedy_action L ag state of
                     Inl e \<Rightarrow> Inl e
                   | Inr action \<Rightarrow> Inr (action, ag, w1)))))"

section \<open>Persistence\<close>

text \<open>
  The artifact written by \<^verbatim>\<open>save\<close> is the dictionary with the keys \<^verbatim>\<open>"parameters"\<close> and
  \<^verbatim>\<open>"optimizer"\<close>. The file system maps a path to the artifact stored there; a path that
  cannot be written, a path with no artifact, and an artifact whose parameter shapes
  differ from the network's are errors of the serialisation library.
\<close>

record ('p, 'o) checkpoint =
  ck_parameters :: 'p
  ck_optimizer :: 'o

record ('p, 'o) filesystem =
  files :: "string \<rightharpoonup> ('p, 'o) checkpoint"
  writable :: "string \<Rightarrow> bool"

definition save :: "('p, 'o) agent \<Rightarrow> string \<Rightarrow> ('p, 'o) filesystem \<Rightarrow> error + ('p, 'o) filesystem" where
  "save ag path fs =
     (if \<not> writable fs path then Inl PersistenceError
      else Inr (fs\<lparr>files := (files fs)(path \<mapsto>
                  \<lparr>ck_parameters = q ag, ck_optimizer = optimizer ag\<rparr>)\<rparr>))"

definition load ::
  "('p, 'o, 'w) collaborators \<Rightarrow> ('p, 'o) agent \<Rightarrow> string \<Rightarrow> ('p, 'o) filesystem \<Rightarrow> error + ('p, 'o) agent" where
  "load L ag path fs =
     (case files fs path of
        None \<Rightarrow> Inl PersistenceError
      | Some checkpoint \<Rightarrow>
          if shape_of L (ck_parameters checkpoint) \<noteq> shape_of L (q ag) then Inl PersistenceError
          else Inr (ag\<lparr>q := ck_parameters checkpoint, optimizer := ck_optimizer checkpoint\<rparr>))"

section \<open>Learner\<close>

text \<open>
  \<^verbatim>\<open>np.array\<close> on a sequence of vectors: rows of different lengths do not form a matrix.
\<close>

definition stack :: "real list list \<Rightarrow> error + real list list" where
  "stack rows =
     (case rows of
        [] \<Rightarrow> Inr []
      | r # rs \<Rightarrow> if list_all (\<lambda>x. length x = length r) rs then Inr rows
                  else Inl ShapeMismatchError)"

text \<open>
  The first lines of \<^verbatim>\<open>update_agent\<close>: \<^verbatim>\<open>zip(*training_batch)\<close> unpacked into six names
  fails on an empty batch; then the five arrays are built in the order states, actions,
  rewards, next states, done mask.
\<close>

definition unpack ::
  "transition list \<Rightarrow> error + (real list list \<times> int list \<times> real list \<times> real list list \<times> real list)" where
  "unpack training_batch =
     (if training_batch = [] then Inl ValueError
      else
        (case stack (map t_state training_batch) of
           Inl e \<Rightarrow> Inl e
         | Inr s \<Rightarrow>
             (case stack (map t_next_state training_batch) of
                Inl e \<Rightarrow> Inl e
              | Inr s_next \<Rightarrow>
                  Inr (s, map t_action training_batch, map t_reward training_batch, s_next,
                       map (\<lambda>t. if t_done t then 1 else 0) training_batch))))"

text \<open>
  Modelled from the spec: \<^verbatim>\<open>QNetwork.forward\<close> on a batch is missing. One row of value
  estimates per state; a state of another size than the expected input size is a
  \<open>ShapeMismatchError\<close>.
\<close>

definition q_batch ::
  "('p, 'o, 'w) collaborators \<Rightarrow> ('p, 'o) agent \<Rightarrow> 'p \<Rightarrow> real list list \<Rightarrow> error + real list list" where
  "q_batch L ag params rows =
     (if list_all (\<lambda>x. length x = obs_dim ag) rows then Inr (map (forward L params) rows)
      else Inl ShapeMismatchError)"

text \<open>\<^verbatim>\<open>q_values.gather(1, a).squeeze(1)\<close>: an index outside the row is an error.\<close>

definition gather :: "real list list \<Rightarrow> int list \<Rightarrow> error + real list" where
  "gather rows acts =
     (if list_all (\<lambda>(row, a). 0 \<le> a \<and> a < int (length row)) (zip rows acts)
      then Inr (map (\<lambda>(row, a). row ! nat a) (zip rows acts))
      else Inl IndexError)"

text \<open>\<^verbatim>\<open>.max(dim=1)[0]\<close>: the largest entry of every row; an empty row is an error.\<close>

definition max_rows :: "real list list \<Rightarrow> error + real list" where
  "max_rows rows =
     (if list_all (\<lambda>row. row \<noteq> []) rows then Inr (map (\<lambda>row. Max (set row)) rows)
      else Inl IndexError)"

text \<open>\<^verbatim>\<open>target = r + (1.0 - mask) * self.gamma * max_next_q\<close>, elementwise.\<close>

definition td_target :: "real \<Rightarrow> real list \<Rightarrow> real list \<Rightarrow> real list \<Rightarrow> real list" where
  "td_target gam r done_mask max_next_q =
     map (\<lambda>(ri, mi, mx). ri + (1 - mi) * gam * mx) (zip r (zip done_mask max_next_q))"

text \<open>\<^verbatim>\<open>nn.MSELoss()\<close>: the mean of the squared differences.\<close>

definition mse_loss :: "real list \<Rightarrow> real list \<Rightarrow> real" where
  "mse_loss pred target =
     sum_list (map (\<lambda>(p, t). (p - t)\<^sup>2) (zip pred target)) / real (length pred)"

text \<open>
  \<^verbatim>\<open>update_agent\<close>. The target network is read for the regression target, Adam changes the
  online network, then the target network is overwritten when \<^verbatim>\<open>total_steps\<close>, as it
  is before the increment, is a multiple of \<^verbatim>\<open>target_update_freq\<close>, and only then is
  \<^verbatim>\<open>total_steps\<close> incremented.
\<close>

definition update_agent ::
  "('p, 'o, 'w) collaborators \<Rightarrow> ('p, 'o) agent \<Rightarrow> transition list \<Rightarrow> error + (real \<times> ('p, 'o) agent)" where
  "update_agent L ag training_batch =
     (case unpack training_batch of
        Inl e \<Rightarrow> Inl e
      | Inr (s, a, r, s_next, done_mask) \<Rightarrow>
     (case q_batch L ag (q ag) s of
        Inl e \<Rightarrow> Inl e
      | Inr qs \<Rightarrow>
     (case gather qs a of
        Inl e \<Rightarrow> Inl e
      | Inr pred \<Rightarrow>
     (case q_batch L ag (target_q ag) s_next of
        Inl e \<Rightarrow> Inl e
      | Inr next_qs \<Rightarrow>
     (case max_rows next_qs of
        Inl e \<Rightarrow> Inl e
      | Inr max_next_q \<Rightarrow>
          (let target = td_target (gamma ag) r done_mask max_next_q;
               loss = mse_loss pred target;
               stepped = adam_step L (q ag) (optimizer ag) s a target;
               ag1 = ag\<lparr>q := fst stepped, optimizer := snd stepped\<rparr>
           in if target_update_freq ag1 = 0 then Inl ZeroDivisionError
              else
                (let ag2 = (if total_steps ag1 mod target_update_freq ag1 = 0
                            then ag1\<lparr>target_q := q ag1\<rparr> else ag1)
                 in Inr (loss, ag2\<lparr>total_steps := total_steps ag2 + 1\<rparr>))))))))"

text \<open>A sequence of learner updates, one batch per call; the first error aborts.\<close>

fun updates ::
  "('p, 'o, 'w) collaborators \<Rightarrow> ('p, 'o) agent \<Rightarrow> transition list list \<Rightarrow> error + ('p, 'o) agent" where
  "updates L ag [] = Inr ag"
| "updates L ag (b # bs) =
     (case update_agent L ag b of
        Inl e \<Rightarrow> Inl e
      | Inr (loss, ag') \<Rightarrow> updates L ag' bs)"

text \<open>
  The values of \<^verbatim>\<open>pred\<close> and \<^verbatim>\<open>target\<close> in \<^verbatim>\<open>update_agent\<close> on a batch that passes every
  check, written over the transitions of the batch.
\<close>

definition batch_pred :: "('p, 'o, 'w) collaborators \<Rightarrow> ('p, 'o) agent \<Rightarrow> transition list \<Rightarrow> real list" where
  "batch_pred L ag b =
     map (\<lambda>(row, a). row ! nat a) (zip (map (forward L (q ag)) (map t_state b)) (map t_action b))"

definition batch_target :: "('p, 'o, 'w) collaborators \<Rightarrow> ('p, 'o) agent \<Rightarrow> transition list \<Rightarrow> real list" where
  "batch_target L ag b =
     td_target (gamma ag) (map t_reward b) (map (\<lambda>t. if t_done t then 1 else 0) b)
       (map (\<lambda>row. Max (set row)) (map (forward L (target_q ag)) (map t_next_state b)))"

section \<open>Replay buffer\<close>

text \<open>
  Modelled from the spec: \<^verbatim>\<open>ReplayBuffer\<close> (\<^verbatim>\<open>rl_exercises.week_4.buffers\<close>) is not part of
  the sources at hand. \<open>add\<close> inserts one transition and, when the current size equals
  the capacity, discards the oldest stored transition first. \<open>sample n\<close> requires the
  current size to be at least \<open>n\<close> and fails with \<open>InsufficientDataError\<close> otherwise; it
  returns \<open>n\<close> transitions, each at an index drawn for its slot, duplicates permitted.
\<close>

definition buffer_add :: "transition \<Rightarrow> replay_buffer \<Rightarrow> replay_buffer" where
  "buffer_add t b =
     b\<lparr>storage := (if length (storage b) = capacity b then tl (storage b) else storage b) @ [t]\<rparr>"

text \<open>Modelled from the spec: \<^verbatim>\<open>ReplayBuffer.__len__\<close> is missing. The current element count.\<close>

definition buffer_len :: "replay_buffer \<Rightarrow> nat" where
  "buffer_len b = length (storage b)"

text \<open>
  Modelled from the spec: the sampling of \<^verbatim>\<open>ReplayBuffer.sample\<close> is missing. One index is
  drawn per slot from the current contents, with replacement.
\<close>

fun draw :: "(nat \<Rightarrow> 'w \<Rightarrow> nat \<times> 'w) \<Rightarrow> transition list \<Rightarrow> nat \<Rightarrow> 'w \<Rightarrow> transition list \<times> 'w" where
  "draw ri xs 0 w = ([], w)"
| "draw ri xs (Suc n) w =
     (case ri (length xs) w of (i, w1) \<Rightarrow>
        (case draw ri xs n w1 of (rest, w2) \<Rightarrow> (xs ! (i mod length xs) # rest, w2)))"

text \<open>
  Modelled from the spec: \<^verbatim>\<open>ReplayBuffer.sample\<close> is missing. It requires the current size
  to be at least \<open>n\<close> and fails with \<open>InsufficientDataError\<close> otherwise.
\<close>

definition buffer_sample ::
  "('p, 'o, 'w) collaborators \<Rightarrow> nat \<Rightarrow> replay_buffer \<Rightarrow> 'w \<Rightarrow> error + (transition list \<times> 'w)" where
  "buffer_sample L n b w =
     (if buffer_len b < n then Inl InsufficientDataError
      else Inr (draw (random_index L) (storage b) n w))"

section \<open>Training loop\<close>

text \<open>
  The variables of the loop in \<^verbatim>\<open>train\<close>: the agent, the world, the current state, the
  reward of the running episode and the rewards of the completed episodes.
\<close>

record ('p, 'o, 'w) loop_state =
  ls_agent :: "('p, 'o) agent"
  ls_world :: 'w
  ls_state :: observation
  ls_ep_reward :: real
  ls_recent_rewards :: "real list"

text \<open>Python's \<^verbatim>\<open>xs[i:]\<close>: a negative start counts from the end and is clipped at 0.\<close>

definition slice_from :: "int \<Rightarrow> 'a list \<Rightarrow> 'a list" where
  "slice_from i xs =
     (if i < 0 then drop (nat (int (length xs) + i)) xs else drop (nat i) xs)"

definition mean :: "real list \<Rightarrow> real" where
  "mean xs = sum_list xs / real (length xs)"

text \<open>The value logged at a checkpoint.\<close>

definition mean_r :: "int \<Rightarrow> real list \<Rightarrow> real" where
  "mean_r eval_interval recent_rewards =
     (if recent_rewards \<noteq> [] then mean (slice_from (- eval_interval) recent_rewards) else 0)"

text \<open>The part of the loop body up to and including \<^verbatim>\<open>self.buffer.add\<close> and the two updates
  of the local variables.\<close>

definition interact ::
  "('p, 'o, 'w) collaborators \<Rightarrow> ('p, 'o, 'w) loop_state
     \<Rightarrow> error + ((bool \<times> bool) \<times> ('p, 'o, 'w) loop_state)" where
  "interact L st =
     (case predict_action L (ls_agent st) (ls_state st) False (ls_world st) of
        Inl e \<Rightarrow> Inl e
      | Inr (action, ag, w1) \<Rightarrow>
          (case env_step L action w1 of ((next_state, reward, done, truncated), w2) \<Rightarrow>
             Inr ((done, truncated),
                  \<lparr>ls_agent = ag\<lparr>buffer := buffer_add
                       \<lparr>t_state = ls_state st, t_action = action, t_reward = reward,
                        t_next_state = next_state, t_done = (done \<or> truncated), t_info = []\<rparr>
                       (buffer ag)\<rparr>,
                   ls_world = w2, ls_state = next_state,
                   ls_ep_reward = ls_ep_reward st + reward,
                   ls_recent_rewards = ls_recent_rewards st\<rparr>)))"

text \<open>\<^verbatim>\<open>if len(self.buffer) >= self.batch_size\<close>: sample a batch and update.\<close>

definition learn ::
  "('p, 'o, 'w) collaborators \<Rightarrow> ('p, 'o, 'w) loop_state \<Rightarrow> error + ('p, 'o, 'w) loop_state" where
  "learn L st =
     (if buffer_len (buffer (ls_agent st)) \<ge> batch_size (ls_agent st) then
        (case buffer_sample L (batch_size (ls_agent st)) (buffer (ls_agent st)) (ls_world st) of
           Inl e \<Rightarrow> Inl e
         | Inr (batch, w1) \<Rightarrow>
             (case update_agent L (ls_agent st) batch of
                Inl e \<Rightarrow> Inl e
              | Inr (loss, ag) \<Rightarrow> Inr (st\<lparr>ls_agent := ag, ls_world := w1\<rparr>)))
      else Inr st)"

text \<open>\<^verbatim>\<open>if done or truncated\<close>: reset the environment and close the episode.\<close>

definition end_episode ::
  "('p, 'o, 'w) collaborators \<Rightarrow> bool \<times> bool \<Rightarrow> ('p, 'o, 'w) loop_state \<Rightarrow> ('p, 'o, 'w) loop_state" where
  "end_episode L flags st =
     (if fst flags \<or> snd flags then
        (case env_reset L (ls_world st) of (state, w1) \<Rightarrow>
           st\<lparr>ls_state := state, ls_world := w1,
              ls_recent_rewards := ls_recent_rewards st @ [ls_ep_reward st],
              ls_ep_reward := 0\<rparr>)
      else st)"

text \<open>\<^verbatim>\<open>if frame % eval_interval == 0\<close>: append to both histories.\<close>

definition checkpoint_log ::
  "int \<Rightarrow> int \<Rightarrow> ('p, 'o, 'w) loop_state \<Rightarrow> error + ('p, 'o, 'w) loop_state" where
  "checkpoint_log eval_interval frame st =
     (if eval_interval = 0 then Inl ZeroDivisionError
      else if frame mod eval_interval = 0 then
        Inr (st\<lparr>ls_agent := (ls_agent st)
               \<lparr>frame_history := frame_history (ls_agent st) @ [frame],
                mean_reward_history := mean_reward_history (ls_agent st) @
                   [mean_r eval_interval (ls_recent_rewards st)]\<rparr>\<rparr>)
      else Inr st)"

text \<open>One iteration of the loop, for the frame number \<open>frame\<close>.\<close>

definition train_step ::
  "('p, 'o, 'w) collaborators \<Rightarrow> int \<Rightarrow> int \<Rightarrow> ('p, 'o, 'w) loop_state \<Rightarrow> error + ('p, 'o, 'w) loop_state" where
  "train_step L eval_interval frame st =
     (case interact L st of
        Inl e \<Rightarrow> Inl e
      | Inr (flags, st1) \<Rightarrow>
          (case learn L st1 of
             Inl e \<Rightarrow> Inl e
           | Inr st2 \<Rightarrow> checkpoint_log eval_interval frame (end_episode L flags st2)))"

text \<open>
  \<^verbatim>\<open>for frame in range(1, num_frames + 1)\<close>: \<open>train_loop L eval_interval n st\<close> is the loop
  state after the frames \<open>1, \<dots>, n\<close>, started in \<open>st\<close>.
\<close>

fun train_loop ::
  "('p, 'o, 'w) collaborators \<Rightarrow> int \<Rightarrow> nat \<Rightarrow> ('p, 'o, 'w) loop_state \<Rightarrow> error + ('p, 'o, 'w) loop_state" where
  "train_loop L eval_interval 0 st = Inr st"
| "train_loop L eval_interval (Suc n) st =
     (case train_loop L eval_interval n st of
        Inl e \<Rightarrow> Inl e
      | Inr st' \<Rightarrow> train_step L eval_interval (int (Suc n)) st')"

definition train_init ::
  "('p, 'o, 'w) collaborators \<Rightarrow> ('p, 'o) agent \<Rightarrow> 'w \<Rightarrow> ('p, 'o, 'w) loop_state" where
  "train_init L ag w =
     (case env_reset L w of (state, w0) \<Rightarrow>
        \<lparr>ls_agent = ag, ls_world = w0, ls_state = state, ls_ep_reward = 0,
         ls_recent_rewards = []\<rparr>)"

definition train ::
  "('p, 'o, 'w) collaborators \<Rightarrow> ('p, 'o) agent \<Rightarrow> 'w \<Rightarrow> int \<Rightarrow> int \<Rightarrow> error + (('p, 'o) agent \<times> 'w)" where
  "train L ag w num_frames eval_interval =
     (case train_loop L eval_interval (nat num_frames) (train_init L ag w) of
        Inl e \<Rightarrow> Inl e
      | Inr st \<Rightarrow> Inr (ls_agent st, ls_world st))"


section \<open>Well-behaved collaborators\<close>





section \<open>A concrete agent\<close>

text \<open>
  A small instance on which the definitions can be run: the network has one integer
  parameter \<open>p\<close> and two actions with the value estimates \<open>p\<close> and \<open>0\<close>, an Adam step adds
  one to the parameter and counts its calls, every environment step pays reward 1 and
  every tenth step truncates the episode. The hyperparameters are those of the
  end-to-end scenario: capacity 100, batch size 8, target period 10, decay 50.
\<close>

definition demo_collab :: "(int, nat, nat) collaborators" where
  "demo_collab =
     \<lparr>forward = (\<lambda>p x. [real_of_int p, 0]),
      adam_step = (\<lambda>p opt s a target. (p + 1, Suc opt)),
      shape_of = (\<lambda>p. [2]),
      env_reset = (\<lambda>w. ([0], w)),
      env_step = (\<lambda>a w. (([0], 1, False, Suc w mod 10 = 0), Suc w)),
      action_space_sample = (\<lambda>w. (0, w)),
      random_rand = (\<lambda>w. (0, w)),
      random_index = (\<lambda>n w. (w mod n, w))\<rparr>"

definition demo_agent :: "(int, nat) agent" where
  "demo_agent = init_agent 1 0 0 100 8 (99 / 100) 1 (1 / 100) 50 10"

definition demo_transition :: "bool \<Rightarrow> transition" where
  "demo_transition d =
     \<lparr>t_state = [0], t_action = 0, t_reward = 1, t_next_state = [0], t_done = d, t_info = []\<rparr>"

section \<open>Evaluation and the learner step\<close>

lemmas demo_defs = demo_collab_def demo_agent_def demo_transition_def init_agent_def

lemmas learner_defs = update_agent_def unpack_def stack_def q_batch_def gather_def max_rows_def
  td_target_def mse_loss_def Let_def

lemma stack_Inr: "stack rows = Inr x \<Longrightarrow> x = rows"
  by (auto simp: stack_def split: list.splits if_splits)

lemma unpack_Inr:
  assumes "unpack b = Inr x"
  shows "b \<noteq> [] \<and> x = (map t_state b, map t_action b, map t_reward b, map t_next_state b,
           map (\<lambda>t. if t_done t then 1 else 0) b)"
  using assms
  by (auto simp: unpack_def split: if_splits sum.splits dest!: stack_Inr)

lemma q_batch_Inr: "q_batch L ag p rows = Inr x \<Longrightarrow> x = map (forward L p) rows"
  by (auto simp: q_batch_def split: if_splits)

lemma gather_Inr: "gather rows acts = Inr x \<Longrightarrow> x = map (\<lambda>(row, a). row ! nat a) (zip rows acts)"
  by (auto simp: gather_def split: if_splits)

lemma max_rows_Inr: "max_rows rows = Inr x \<Longrightarrow> x = map (\<lambda>row. Max (set row)) rows"
  by (auto simp: max_rows_def split: if_splits)

text \<open>What a successful learner step returns, field by field.\<close>

lemma update_agent_Inr:
  assumes "update_agent L ag b = Inr (loss, ag')"
  shows "b \<noteq> [] \<and> target_update_freq ag \<noteq> 0 \<and>
     loss = mse_loss (batch_pred L ag b) (batch_target L ag b) \<and>
     ag' = ag\<lparr>q := fst (adam_step L (q ag) (optimizer ag) (map t_state b) (map t_action b) (batch_target L ag b)),
              optimizer := snd (adam_step L (q ag) (optimizer ag) (map t_state b) (map t_action b) (batch_target L ag b)),
              target_q := (if total_steps ag mod target_update_freq ag = 0
                           then fst (adam_step L (q ag) (optimizer ag) (map t_state b) (map t_action b) (batch_target L ag b))
                           else target_q ag),
              total_steps := total_steps ag + 1\<rparr>"
  using assms unfolding update_agent_def batch_target_def batch_pred_def
  by (auto simp: Let_def split: sum.splits prod.splits if_splits
      dest!: unpack_Inr q_batch_Inr gather_Inr max_rows_Inr)

lemma update_agent_fields:
  assumes "update_agent L ag b = Inr (loss, ag')"
  shows "total_steps ag' = total_steps ag + 1"
    and "target_update_freq ag' = target_update_freq ag"
    and "target_update_freq ag \<noteq> 0"
    and "target_q ag' = (if total_steps ag mod target_update_freq ag = 0 then q ag' else target_q ag)"
    and "buffer ag' = buffer ag"
    and "frame_history ag' = frame_history ag"
    and "mean_reward_history ag' = mean_reward_history ag"
    and "batch_size ag' = batch_size ag"
    and "obs_dim ag' = obs_dim ag"
  using update_agent_Inr[OF assms] by simp_all

lemma updates_steps:
  "updates L ag bs = Inr ag' \<Longrightarrow>
     total_steps ag' = total_steps ag + int (length bs) \<and>
     target_update_freq ag' = target_update_freq ag"
proof (induction bs arbitrary: ag)
  case Nil
  then show ?case by simp
next
  case (Cons b bs)
  then obtain loss ag1 where u: "update_agent L ag b = Inr (loss, ag1)"
    and r: "updates L ag1 bs = Inr ag'"
    by (auto split: sum.splits)
  from Cons.IH[OF r] update_agent_fields(1,2)[OF u] show ?case by simp
qed

section \<open>Target synchronisation\<close>

text \<open>
  C1 (as amended). After \<open>n\<close> successful learner updates from an agent with
  \<open>total_steps = 0\<close>, the counter is \<open>n\<close>; the next update tests the counter as it is
  before the increment, so it copies the online parameters into the target network
  exactly when \<open>n\<close> is a multiple of \<open>target_update_freq\<close> (the calls number 1,
  \<open>freq + 1\<close>, \<open>2 * freq + 1\<close>, ...), leaves the target parameters unchanged otherwise,
  and increments the counter afterwards.
\<close>

theorem target_sync_timing:
  assumes "updates L ag bs = Inr ag1"
    and "total_steps ag = 0"
    and "update_agent L ag1 b = Inr (loss, ag2)"
  shows "total_steps ag1 = int (length bs) \<and> total_steps ag2 = int (length bs) + 1 \<and>
         (if int (length bs) mod target_update_freq ag = 0
          then target_q ag2 = q ag2 else target_q ag2 = target_q ag1)"
proof -
  from updates_steps[OF assms(1)] assms(2)
  have s1: "total_steps ag1 = int (length bs)"
    and f1: "target_update_freq ag1 = target_update_freq ag"
    by simp_all
  from update_agent_fields(1,4)[OF assms(3)] s1 f1 show ?thesis by simp
qed

theorem target_sync_timing_witness:
  "\<exists>ag1 loss ag2.
      updates demo_collab demo_agent [[demo_transition False]] = Inr ag1 \<and>
      total_steps demo_agent = 0 \<and>
      update_agent demo_collab ag1 [demo_transition False] = Inr (loss, ag2) \<and>
      total_steps ag2 = 2 \<and> target_q ag2 = target_q ag1 \<and> q ag2 \<noteq> q ag1"
proof -
  obtain ag1 where h1: "updates demo_collab demo_agent [[demo_transition False]] = Inr ag1"
    and q1: "q ag1 = 1"
    and c1: "ag1 = demo_agent\<lparr>q := 1, optimizer := 1, target_q := 1, total_steps := 1\<rparr>"
    by (simp add: demo_defs learner_defs)
  have h0: "total_steps demo_agent = 0"
    by (simp add: demo_defs)
  obtain loss ag2 where h2: "update_agent demo_collab ag1 [demo_transition False] = Inr (loss, ag2)"
    and q2: "q ag2 = 2"
    unfolding c1 by (simp add: demo_defs learner_defs)
  have ne: "q ag2 \<noteq> q ag1"
    using q1 q2 by simp
  from target_sync_timing[OF h1 h0 h2]
  have r: "total_steps ag2 = 2 \<and> target_q ag2 = target_q ag1"
    by (simp add: demo_defs)
  from h1 h0 h2 r ne show ?thesis
    by blast
qed

text \<open>
  C1 as stated fails: with \<open>target_update_freq = 10\<close>, after exactly ten updates of the
  fresh agent the online parameter is 10 while the target parameter is still 1, the
  value copied by the first update.
\<close>

theorem target_sync_counterexample:
  "map_sum id (\<lambda>ag. (total_steps ag, target_update_freq ag, q ag, target_q ag))
     (updates demo_collab demo_agent (replicate 10 [demo_transition False])) =
   Inr (10, 10, 10, 1)"
  by code_simp

section \<open>Exploration schedule\<close>




section \<open>Regression target\<close>

lemma batch_target_length: "length (batch_target L ag b) = length b"
  by (simp add: batch_target_def td_target_def)

lemma batch_target_nth:
  assumes "i < length b"
  shows "batch_target L ag b ! i =
           t_reward (b ! i) + (1 - (if t_done (b ! i) then 1 else 0)) * gamma ag *
             Max (set (forward L (target_q ag) (t_next_state (b ! i))))"
  using assms by (simp add: batch_target_def td_target_def)

lemma batch_target_done:
  assumes "i < length b" and "t_done (b ! i)"
  shows "batch_target L ag b ! i = t_reward (b ! i)"
  using assms by (simp add: batch_target_nth)

lemma batch_target_all_done:
  assumes "list_all t_done b"
  shows "batch_target L ag b = map t_reward b"
proof (rule nth_equalityI)
  show "length (batch_target L ag b) = length (map t_reward b)"
    by (simp add: batch_target_length)
next
  fix i assume "i < length (batch_target L ag b)"
  then have i: "i < length b" by (simp add: batch_target_length)
  with assms have "t_done (b ! i)" by (simp add: list_all_length)
  with i show "batch_target L ag b ! i = map t_reward b ! i"
    by (simp add: batch_target_done)
qed

text \<open>
  C2. On every batch that the learner step accepts, the loss and the Adam step are
  computed from the regression target whose entry for sample \<open>i\<close> is
  \<open>reward\<^sub>i + (1 - done\<^sub>i) * gamma * max\<close> of the target network's value estimates on
  \<open>next_state\<^sub>i\<close>; when every done flag of the batch is true, the target is the list of
  rewards.
\<close>

theorem td_target_formula:
  assumes "update_agent L ag b = Inr (loss, ag')"
  shows "loss = mse_loss (batch_pred L ag b) (batch_target L ag b) \<and>
         (q ag', optimizer ag') =
            adam_step L (q ag) (optimizer ag) (map t_state b) (map t_action b) (batch_target L ag b) \<and>
         length (batch_target L ag b) = length b \<and>
         (\<forall>i<length b. batch_target L ag b ! i =
            t_reward (b ! i) + (1 - (if t_done (b ! i) then 1 else 0)) * gamma ag *
              Max (set (forward L (target_q ag) (t_next_state (b ! i))))) \<and>
         (list_all t_done b \<longrightarrow> batch_target L ag b = map t_reward b)"
proof -
  from update_agent_Inr[OF assms]
  have l: "loss = mse_loss (batch_pred L ag b) (batch_target L ag b)"
    and a: "(q ag', optimizer ag') =
      adam_step L (q ag) (optimizer ag) (map t_state b) (map t_action b) (batch_target L ag b)"
    by simp_all
  show ?thesis
    using l a batch_target_length batch_target_nth batch_target_all_done by blast
qed

theorem td_target_formula_witness:
  "\<exists>loss ag' loss2 ag2.
     update_agent demo_collab (demo_agent\<lparr>target_q := 5\<rparr>)
       [demo_transition True, demo_transition False] = Inr (loss, ag') \<and>
     batch_target demo_collab (demo_agent\<lparr>target_q := 5\<rparr>)
       [demo_transition True, demo_transition False] = [1, 1 + 99 / 100 * 5] \<and>
     update_agent demo_collab (demo_agent\<lparr>target_q := 5\<rparr>)
       [demo_transition True, demo_transition True] = Inr (loss2, ag2) \<and>
     batch_target demo_collab (demo_agent\<lparr>target_q := 5\<rparr>)
       [demo_transition True, demo_transition True] = [1, 1]"
proof -
  let ?ag = "demo_agent\<lparr>target_q := 5\<rparr>"
  let ?b = "[demo_transition True, demo_transition False]"
  let ?c = "[demo_transition True, demo_transition True]"
  obtain x where hx: "update_agent demo_collab ?ag ?b = Inr x"
    by (simp add: demo_defs learner_defs)
  obtain loss ag' where h: "update_agent demo_collab ?ag ?b = Inr (loss, ag')"
    using hx by (cases x) simp
  have n: "\<forall>i<length ?b. batch_target demo_collab ?ag ?b ! i =
            t_reward (?b ! i) + (1 - (if t_done (?b ! i) then 1 else 0)) * gamma ?ag *
              Max (set (forward demo_collab (target_q ?ag) (t_next_state (?b ! i))))"
    and len: "length (batch_target demo_collab ?ag ?b) = length ?b"
    using td_target_formula[OF h] by blast+
  have t0: "batch_target demo_collab ?ag ?b ! 0 = 1"
    using n[rule_format, of 0] by (simp add: demo_defs)
  have t1: "batch_target demo_collab ?ag ?b ! 1 = 1 + 99 / 100 * 5"
    using n[rule_format, of 1] by (simp add: demo_defs)
  have e: "batch_target demo_collab ?ag ?b = [1, 1 + 99 / 100 * 5]"
    using len t0 t1 by (auto simp: length_Suc_conv)
  obtain y where hy: "update_agent demo_collab ?ag ?c = Inr y"
    by (simp add: demo_defs learner_defs)
  obtain loss2 ag2 where h2: "update_agent demo_collab ?ag ?c = Inr (loss2, ag2)"
    using hy by (cases y) simp
  have all_done: "list_all t_done ?c"
    by (simp add: demo_defs)
  have "list_all t_done ?c \<longrightarrow> batch_target demo_collab ?ag ?c = map t_reward ?c"
    using td_target_formula[OF h2] by blast
  with all_done have d: "batch_target demo_collab ?ag ?c = [1, 1]"
    by (simp add: demo_defs)
  from h e h2 d show ?thesis by blast
qed

section \<open>Greedy action selection\<close>

lemma argmax_first_max:
  assumes "xs \<noteq> []"
  shows "\<exists>i. argmax xs = Inr i \<and> i < length xs \<and> xs ! i = Max (set xs) \<and>
             (\<forall>j<i. xs ! j < xs ! i)"
proof -
  let ?m = "Max (set xs)"
  let ?i = "length (takeWhile (\<lambda>x. x \<noteq> ?m) xs)"
  have mem: "?m \<in> set xs"
    using assms by (intro Max_in) simp_all
  have lt: "?i < length xs"
  proof (rule ccontr)
    assume "\<not> ?i < length xs"
    then have "?i = length xs"
      using length_takeWhile_le[of "\<lambda>x. x \<noteq> ?m" xs] by simp
    then have "takeWhile (\<lambda>x. x \<noteq> ?m) xs = xs"
      by (metis takeWhile_eq_take take_all order_refl)
    then have "\<forall>x\<in>set xs. x \<noteq> ?m"
      by (metis set_takeWhileD)
    with mem show False by blast
  qed
  have at: "xs ! ?i = ?m"
    using nth_length_takeWhile[OF lt] by simp
  have before: "\<forall>j<?i. xs ! j < xs ! ?i"
  proof (intro allI impI)
    fix j assume j: "j < ?i"
    then have "takeWhile (\<lambda>x. x \<noteq> ?m) xs ! j = xs ! j"
      by (rule takeWhile_nth)
    moreover have "takeWhile (\<lambda>x. x \<noteq> ?m) xs ! j \<in> set (takeWhile (\<lambda>x. x \<noteq> ?m) xs)"
      using j by (rule nth_mem)
    ultimately have ne: "xs ! j \<noteq> ?m" and inx: "xs ! j \<in> set xs"
      by (metis set_takeWhileD)+
    have "xs ! j \<le> ?m"
      using inx by (intro Max_ge) simp_all
    with ne at show "xs ! j < xs ! ?i" by simp
  qed
  show ?thesis
    using assms lt at before by (auto simp: argmax_def)
qed

text \<open>
  C5. Greedy selection is a function of the online parameters, the input size and the
  state alone: two calls of \<^verbatim>\<open>predict_action(state, evaluate=True)\<close> on agents with the
  same online network return the same action (or the same error), whatever the state of
  the random generators and of the rest of the agent. On a state of the expected size,
  with at least one action, the action returned is the first index at which the value
  estimates are maximal: every earlier estimate is strictly smaller. The first conjunct
  is the determinism, the second the argmax with ties to the lowest index.
\<close>

theorem greedy_deterministic:
  assumes "q ag' = q ag" and "obs_dim ag' = obs_dim ag"
  shows "map_sum id fst (predict_action L ag' state True w') =
           map_sum id fst (predict_action L ag state True w) \<and>
         (length state = obs_dim ag \<and> forward L (q ag) state \<noteq> [] \<longrightarrow>
            (\<exists>i. predict_action L ag state True w = Inr (int i, ag, w) \<and>
                 i < length (forward L (q ag) state) \<and>
                 forward L (q ag) state ! i = Max (set (forward L (q ag) state)) \<and>
                 (\<forall>j<i. forward L (q ag) state ! j < forward L (q ag) state ! i)))"
proof -
  have g: "greedy_action L ag' state = greedy_action L ag state"
    using assms by (simp add: greedy_action_def q_values_def)
  have det: "map_sum id fst (predict_action L ag' state True w') =
           map_sum id fst (predict_action L ag state True w)"
    by (simp add: predict_action_def g split: sum.splits)
  have char: "\<exists>i. predict_action L ag state True w = Inr (int i, ag, w) \<and>
                 i < length (forward L (q ag) state) \<and>
                 forward L (q ag) state ! i = Max (set (forward L (q ag) state)) \<and>
                 (\<forall>j<i. forward L (q ag) state ! j < forward L (q ag) state ! i)"
    if len: "length state = obs_dim ag" and ne: "forward L (q ag) state \<noteq> []"
  proof -
    from argmax_first_max[OF ne] obtain i where
      a: "argmax (forward L (q ag) state) = Inr i" and
      r: "i < length (forward L (q ag) state)"
         "forward L (q ag) state ! i = Max (set (forward L (q ag) state))"
         "\<forall>j<i. forward L (q ag) state ! j < forward L (q ag) state ! i"
      by blast
    have "predict_action L ag state True w = Inr (int i, ag, w)"
      using len a by (simp add: predict_action_def greedy_action_def q_values_def)
    with r show ?thesis by blast
  qed
  from det char show ?thesis by blast
qed

theorem greedy_deterministic_witness:
  "map_sum id fst (predict_action demo_collab (demo_agent\<lparr>total_steps := 7\<rparr>) [0] True 3) =
     map_sum id fst (predict_action demo_collab demo_agent [0] True 0) \<and>
   (\<exists>i. predict_action demo_collab demo_agent [0] True 0 = Inr (int i, demo_agent, 0) \<and> i = 0)"
proof -
  have a: "q (demo_agent\<lparr>total_steps := 7\<rparr>) = q demo_agent"
    and b: "obs_dim (demo_agent\<lparr>total_steps := 7\<rparr>) = obs_dim demo_agent"
    by simp_all
  have c: "length [0::real] = obs_dim demo_agent \<and> forward demo_collab (q demo_agent) [0] \<noteq> []"
    by (simp add: demo_defs)
  from greedy_deterministic[OF a b, of demo_collab "[0]" 3 0] c
  obtain i where d: "map_sum id fst (predict_action demo_collab (demo_agent\<lparr>total_steps := 7\<rparr>) [0] True 3) =
     map_sum id fst (predict_action demo_collab demo_agent [0] True 0)"
    and p: "predict_action demo_collab demo_agent [0] True 0 = Inr (int i, demo_agent, 0)"
    and f: "\<forall>j<i. forward demo_collab (q demo_agent) [0] ! j < forward demo_collab (q demo_agent) [0] ! i"
    and l: "i < length (forward demo_collab (q demo_agent) [0])"
    by blast
  have "i = 0"
  proof (rule ccontr)
    assume "i \<noteq> 0"
    then have "0 < i" by simp
    with f have "forward demo_collab (q demo_agent) [0] ! 0 < forward demo_collab (q demo_agent) [0] ! i"
      by blast
    moreover have "i = 1" using l \<open>0 < i\<close> by (simp add: demo_defs)
    ultimately show False by (simp add: demo_defs)
  qed
  with d p show ?thesis by blast
qed

section \<open>Frame of action selection\<close>

text \<open>
  C9. A call of \<^verbatim>\<open>predict_action\<close> that returns leaves the whole agent record as it
  was: buffer, online and target parameters, optimizer state, \<^verbatim>\<open>total_steps\<close> and both
  histories. In evaluation mode it leaves the random generators untouched as well. The
  result does not depend on the gradient step of the optimizer: replacing it by any
  other function gives the same result, so selection performs no gradient computation.
\<close>

theorem predict_action_frame:
  assumes "predict_action L ag state evaluate w = Inr (a, ag', w')"
  shows "ag' = ag \<and> (evaluate \<longrightarrow> w' = w) \<and>
         predict_action (L\<lparr>adam_step := g\<rparr>) ag state evaluate w = Inr (a, ag', w')"
proof -
  have same: "predict_action (L\<lparr>adam_step := g\<rparr>) ag state evaluate w =
              predict_action L ag state evaluate w"
  proof -
    have gr: "greedy_action (L\<lparr>adam_step := g\<rparr>) ag state = greedy_action L ag state"
      by (simp add: greedy_action_def q_values_def)
    show ?thesis
      by (simp add: predict_action_def gr split: prod.splits sum.splits)
  qed
  have fr: "ag' = ag \<and> (evaluate \<longrightarrow> w' = w)"
    using assms
    by (auto simp: predict_action_def split: if_splits sum.splits prod.splits)
  from same fr assms show ?thesis by simp
qed

theorem predict_action_frame_witness:
  "predict_action demo_collab demo_agent [0] False 0 = Inr (0, demo_agent, 0) \<and>
   predict_action (demo_collab\<lparr>adam_step := (\<lambda>p opt s a t. (p, opt))\<rparr>) demo_agent [0] False 0 =
     Inr (0, demo_agent, 0) \<and>
   predict_action demo_collab (demo_agent\<lparr>q := - 1\<rparr>) [0] True 3 =
     Inr (1, demo_agent\<lparr>q := - 1\<rparr>, 3) \<and>
   predict_action (demo_collab\<lparr>adam_step := (\<lambda>p opt s a t. (p, opt))\<rparr>)
     (demo_agent\<lparr>q := - 1\<rparr>) [0] True 3 = Inr (1, demo_agent\<lparr>q := - 1\<rparr>, 3)"
proof -
  have h: "predict_action demo_collab demo_agent [0] False 0 = Inr (0, demo_agent, 0)"
    by (simp add: predict_action_def epsilon_def demo_defs)
  have g: "predict_action demo_collab (demo_agent\<lparr>q := - 1\<rparr>) [0] True 3 =
             Inr (1, demo_agent\<lparr>q := - 1\<rparr>, 3)"
    by (simp add: predict_action_def greedy_action_def q_values_def argmax_def demo_defs)
  from predict_action_frame[OF h, of "\<lambda>p opt s a t. (p, opt)"]
       predict_action_frame[OF g, of "\<lambda>p opt s a t. (p, opt)"] h g
  show ?thesis by simp
qed

section \<open>Persistence round trip\<close>

text \<open>
  C6. \<^verbatim>\<open>save(path)\<close> to a writable path followed by \<^verbatim>\<open>load(path)\<close> into any agent whose
  network has the same parameter shapes succeeds, stores one artifact at \<open>path\<close> holding
  the online parameters and the optimizer state, and overwrites the loading agent's
  online parameters and optimizer state with the saved ones; loading back into the
  saving agent gives that agent itself.
\<close>

theorem save_load_roundtrip:
  assumes "writable fs path" and "shape_of L (q ag) = shape_of L (q ag2)"
  shows "\<exists>fs'. save ag path fs = Inr fs' \<and>
           files fs' path = Some \<lparr>ck_parameters = q ag, ck_optimizer = optimizer ag\<rparr> \<and>
           load L ag2 path fs' = Inr (ag2\<lparr>q := q ag, optimizer := optimizer ag\<rparr>) \<and>
           load L ag path fs' = Inr ag"
  using assms by (simp add: save_def load_def)

theorem save_load_roundtrip_witness:
  "\<exists>fs'. save (demo_agent\<lparr>q := 4, optimizer := 9\<rparr>) ''dqn.pt'' \<lparr>files = Map.empty, writable = (\<lambda>p. True)\<rparr> = Inr fs' \<and>
      load demo_collab demo_agent ''dqn.pt'' fs' = Inr (demo_agent\<lparr>q := 4, optimizer := 9\<rparr>)"
proof -
  have w: "writable \<lparr>files = (Map.empty :: string \<rightharpoonup> (int, nat) checkpoint), writable = (\<lambda>p. True)\<rparr> ''dqn.pt''"
    by simp
  have s: "shape_of demo_collab (q (demo_agent\<lparr>q := 4, optimizer := 9\<rparr>)) = shape_of demo_collab (q demo_agent)"
    by (simp add: demo_defs)
  from save_load_roundtrip[OF w s] show ?thesis by auto
qed

section \<open>Errors of the learner step\<close>

lemma stack_Inl: "stack rows = Inl e \<Longrightarrow> e = ShapeMismatchError"
  by (auto simp: stack_def split: list.splits if_splits)

lemma unpack_Inl:
  "unpack b = Inl e \<Longrightarrow> (b = [] \<and> e = ValueError) \<or> (b \<noteq> [] \<and> e = ShapeMismatchError)"
  by (auto simp: unpack_def split: if_splits sum.splits dest: stack_Inl)

lemma q_batch_Inl: "q_batch L ag p rows = Inl e \<Longrightarrow> e = ShapeMismatchError"
  by (auto simp: q_batch_def split: if_splits)

lemma gather_Inl: "gather rows acts = Inl e \<Longrightarrow> e = IndexError"
  by (auto simp: gather_def split: if_splits)

lemma max_rows_Inl: "max_rows rows = Inl e \<Longrightarrow> e = IndexError"
  by (auto simp: max_rows_def split: if_splits)

lemma update_agent_Inl:
  assumes "update_agent L ag b = Inl e"
  shows "e = ValueError \<or> e = ShapeMismatchError \<or> e = IndexError \<or> e = ZeroDivisionError"
  using assms unfolding update_agent_def
  by (auto simp: Let_def split: sum.splits prod.splits if_splits
      dest: unpack_Inl q_batch_Inl gather_Inl max_rows_Inl)





section \<open>Sampling precondition in the training loop\<close>

lemma draw_Suc:
  obtains i w1 rest w2 where "ri (length xs) w = (i, w1)" and "draw ri xs n w1 = (rest, w2)"
    and "draw ri xs (Suc n) w = (xs ! (i mod length xs) # rest, w2)"
proof -
  obtain i w1 where a: "ri (length xs) w = (i, w1)"
    by (cases "ri (length xs) w")
  obtain rest w2 where b: "draw ri xs n w1 = (rest, w2)"
    by (cases "draw ri xs n w1")
  from a b have "draw ri xs (Suc n) w = (xs ! (i mod length xs) # rest, w2)"
    by simp
  with a b show ?thesis by (rule that)
qed

lemma draw_length: "length (fst (draw ri xs n w)) = n"
proof (induction n arbitrary: w)
  case 0
  show ?case by simp
next
  case (Suc n)
  obtain i w1 rest w2 where d: "draw ri xs n w1 = (rest, w2)"
    and e: "draw ri xs (Suc n) w = (xs ! (i mod length xs) # rest, w2)"
    by (rule draw_Suc)
  from Suc.IH[of w1] d have "length rest = n" by simp
  with e show ?case by simp
qed

lemma draw_subset: "xs \<noteq> [] \<Longrightarrow> set (fst (draw ri xs n w)) \<subseteq> set xs"
proof (induction n arbitrary: w)
  case 0
  show ?case by simp
next
  case (Suc n)
  obtain i w1 rest w2 where d: "draw ri xs n w1 = (rest, w2)"
    and e: "draw ri xs (Suc n) w = (xs ! (i mod length xs) # rest, w2)"
    by (rule draw_Suc)
  from Suc.IH[OF Suc.prems, of w1] d have "set rest \<subseteq> set xs" by simp
  moreover have "xs ! (i mod length xs) \<in> set xs"
    using Suc.prems by simp
  ultimately show ?case using e by simp
qed

lemma buffer_sample_ok:
  assumes "n \<le> buffer_len b"
  shows "\<exists>batch w'. buffer_sample L n b w = Inr (batch, w') \<and> length batch = n \<and>
           set batch \<subseteq> set (storage b)"
proof -
  obtain batch w' where d: "draw (random_index L) (storage b) n w = (batch, w')"
    by (cases "draw (random_index L) (storage b) n w")
  have l: "length batch = n"
    using draw_length[of "random_index L" "storage b" n w] d by simp
  have s: "set batch \<subseteq> set (storage b)"
  proof (cases "storage b = []")
    case True
    with assms have "n = 0" by (simp add: buffer_len_def)
    with l show ?thesis by simp
  next
    case False
    from draw_subset[OF False, of "random_index L" n w] d show ?thesis by simp
  qed
  from assms d l s show ?thesis
    by (simp add: buffer_sample_def)
qed

lemma epsilon_Inl: "epsilon ag = Inl e \<Longrightarrow> e = ZeroDivisionError"
  by (auto simp: epsilon_def split: if_splits)

lemma greedy_action_Inl:
  "greedy_action L ag s = Inl e \<Longrightarrow> e = ShapeMismatchError \<or> e = IndexError"
  by (auto simp: greedy_action_def q_values_def argmax_def split: if_splits sum.splits)

lemma predict_action_Inl:
  "predict_action L ag s ev w = Inl e \<Longrightarrow>
     e = ZeroDivisionError \<or> e = ShapeMismatchError \<or> e = IndexError"
  by (auto simp: predict_action_def split: if_splits sum.splits prod.splits
      dest: epsilon_Inl greedy_action_Inl)

lemma interact_Inl:
  "interact L st = Inl e \<Longrightarrow> e = ZeroDivisionError \<or> e = ShapeMismatchError \<or> e = IndexError"
  by (auto simp: interact_def split: sum.splits prod.splits dest: predict_action_Inl)

lemma learn_not_insufficient: "learn L st \<noteq> Inl InsufficientDataError"
proof (cases "batch_size (ls_agent st) \<le> buffer_len (buffer (ls_agent st))")
  case True
  from buffer_sample_ok[OF True, of L "ls_world st"] obtain batch w' where
    s: "buffer_sample L (batch_size (ls_agent st)) (buffer (ls_agent st)) (ls_world st) = Inr (batch, w')"
    by blast
  show ?thesis
  proof (cases "update_agent L (ls_agent st) batch")
    case (Inl e)
    from update_agent_Inl[OF Inl] have "e \<noteq> InsufficientDataError" by auto
    with True s Inl show ?thesis by (simp add: learn_def)
  next
    case (Inr x)
    with True s show ?thesis by (cases x) (simp add: learn_def)
  qed
next
  case False
  then show ?thesis by (simp add: learn_def)
qed

lemma checkpoint_log_Inl: "checkpoint_log ei f st = Inl e \<Longrightarrow> e = ZeroDivisionError"
  by (simp add: checkpoint_log_def split: if_splits)

lemma train_step_not_insufficient: "train_step L ei f st \<noteq> Inl InsufficientDataError"
proof (cases "interact L st")
  case (Inl e)
  from interact_Inl[OF Inl] have "e \<noteq> InsufficientDataError" by auto
  with Inl show ?thesis by (simp add: train_step_def)
next
  case (Inr x)
  obtain flags st1 where x: "x = (flags, st1)" by (cases x)
  show ?thesis
  proof (cases "learn L st1")
    case (Inl e)
    with learn_not_insufficient[of L st1] have "e \<noteq> InsufficientDataError" by auto
    with Inr x Inl show ?thesis by (simp add: train_step_def)
  next
    case st2: (Inr st2)
    have "checkpoint_log ei f (end_episode L flags st2) \<noteq> Inl InsufficientDataError"
      using checkpoint_log_Inl[of ei f "end_episode L flags st2" InsufficientDataError] by auto
    with Inr x st2 show ?thesis by (simp add: train_step_def)
  qed
qed

lemma train_loop_not_insufficient: "train_loop L ei n st \<noteq> Inl InsufficientDataError"
proof (induction n)
  case 0
  show ?case by simp
next
  case (Suc n)
  show ?case
  proof (cases "train_loop L ei n st")
    case (Inl e)
    with Suc show ?thesis by auto
  next
    case (Inr st')
    with train_step_not_insufficient[of L ei "int (Suc n)" st'] show ?thesis by simp
  qed
qed

lemma train_not_insufficient: "train L ag w0 num_frames eval_interval \<noteq> Inl InsufficientDataError"
proof (cases "train_loop L eval_interval (nat num_frames) (train_init L ag w0)")
  case (Inl e)
  with train_loop_not_insufficient[of L eval_interval "nat num_frames" "train_init L ag w0"]
  show ?thesis by (auto simp: train_def)
next
  case (Inr st)
  then show ?thesis by (simp add: train_def)
qed

text \<open>
  C8. \<open>sample n\<close> fails with \<open>InsufficientDataError\<close> when the buffer holds fewer than
  \<open>n\<close> transitions and otherwise returns \<open>n\<close> transitions taken from the buffer. The
  training loop samples only under the guard \<^verbatim>\<open>len(self.buffer) >= self.batch_size\<close>, so
  neither the learning branch, nor one iteration, nor a whole run of \<^verbatim>\<open>train\<close> ever ends
  in \<open>InsufficientDataError\<close>.
\<close>

theorem sample_precondition:
  "(buffer_len b < n \<longrightarrow> buffer_sample L n b w = Inl InsufficientDataError) \<and>
   (n \<le> buffer_len b \<longrightarrow>
      (\<exists>batch w'. buffer_sample L n b w = Inr (batch, w') \<and> length batch = n \<and>
                   set batch \<subseteq> set (storage b))) \<and>
   learn L st \<noteq> Inl InsufficientDataError \<and>
   train_step L eval_interval frame st \<noteq> Inl InsufficientDataError \<and>
   train L ag w0 num_frames eval_interval \<noteq> Inl InsufficientDataError"
proof (intro conjI impI)
  assume "buffer_len b < n"
  then show "buffer_sample L n b w = Inl InsufficientDataError"
    by (simp add: buffer_sample_def)
next
  assume "n \<le> buffer_len b"
  then show "\<exists>batch w'. buffer_sample L n b w = Inr (batch, w') \<and> length batch = n \<and>
                   set batch \<subseteq> set (storage b)"
    by (rule buffer_sample_ok)
next
  show "learn L st \<noteq> Inl InsufficientDataError"
    by (rule learn_not_insufficient)
next
  show "train_step L eval_interval frame st \<noteq> Inl InsufficientDataError"
    by (rule train_step_not_insufficient)
next
  show "train L ag w0 num_frames eval_interval \<noteq> Inl InsufficientDataError"
    by (rule train_not_insufficient)
qed

theorem sample_precondition_witness:
  "buffer_sample demo_collab 8 (buffer demo_agent) 0 = Inl InsufficientDataError \<and>
   (\<exists>batch w'. buffer_sample demo_collab 1
        (buffer_add (demo_transition False) (buffer demo_agent)) 0 = Inr (batch, w') \<and>
      length batch = 1 \<and>
      set batch \<subseteq> set (storage (buffer_add (demo_transition False) (buffer demo_agent))))"
proof -
  have a: "buffer_len (buffer demo_agent) < 8"
    by (simp add: buffer_len_def demo_defs)
  have b: "1 \<le> buffer_len (buffer_add (demo_transition False) (buffer demo_agent))"
    by (simp add: buffer_len_def buffer_add_def demo_defs)
  note c = sample_precondition[where L=demo_collab and w="0::nat", THEN conjunct1, rule_format, OF a]
  note d = sample_precondition[where L=demo_collab and w="0::nat", THEN conjunct2, THEN conjunct1,
      rule_format, OF b]
  from c d show ?thesis by (rule conjI)
qed

section \<open>One iteration of the training loop\<close>






lemma end_episode_recent:
  "ls_recent_rewards (end_episode L flags st) =
     (if fst flags \<or> snd flags then ls_recent_rewards st @ [ls_ep_reward st]
      else ls_recent_rewards st)"
  by (simp add: end_episode_def split: prod.splits)






section \<open>Training curve history\<close>






section \<open>The training loop returns\<close>














section \<open>Evaluation checkpoints\<close>






end
